theory Spec2Isabelle
  imports Main
begin

section \<open>Output nodes\<close>

text \<open>
  The React elements built by \<^verbatim>\<open>FormattedText.tsx\<close>: a tag, the optional \<^verbatim>\<open>key\<close>,
  the remaining props in source order, and the children. A child written \<^verbatim>\<open>{expr}\<close> in
  JSX is a string, an element, or an array of elements (the result of \<^verbatim>\<open>getElements\<close>).
  \<^verbatim>\<open>Handler\<close> is the closure \<^verbatim>\<open>() => this.onImageLoad()\<close> of the image callback.
  JavaScript strings are modelled as \<^typ>\<open>string\<close>, one \<^typ>\<open>char\<close> per code unit (so code
  units up to 255); the tokens and delimiters the code inspects are ASCII.
\<close>

datatype attr = Str string | Handler | Style "(string \<times> string) list"

datatype node = Element string "nat option" "(string \<times> attr) list" "child list"
  and child = TextChild string | NodeChild node | ArrayChild "node list"

text \<open>
  Exceptions as values: \<^verbatim>\<open>He.unescape\<close> and \<^verbatim>\<open>Marked.parse\<close> are external and may throw;
  \<^verbatim>\<open>Array.prototype.push\<close> throws a RangeError on an array of maximal length.
\<close>

datatype error = UnescapeError | RangeError | MarkedError

text \<open>\<^verbatim>\<open>He.unescape\<close>, the external entity decoder, is a parameter of the model.\<close>

type_synonym unescape = "string \<Rightarrow> error + string"

section \<open>Decimal numerals\<close>

text \<open>\<^verbatim>\<open>\d\<close> without the unicode flag is \<^verbatim>\<open>[0-9]\<close>.\<close>

definition is_digit :: "char \<Rightarrow> bool" where
  "is_digit c = (c \<in> set ''0123456789'')"

definition digit_val :: "char \<Rightarrow> nat" where
  "digit_val c = of_char c - 48"

definition digit_char :: "nat \<Rightarrow> char" where
  "digit_char d = ''0123456789'' ! d"

text \<open>
  \<^verbatim>\<open>Number(digits)\<close> on a non-empty string of decimal digits. The model keeps the exact
  natural number; JavaScript rounds above \<open>2^53\<close>, which is beyond every array index.
\<close>

definition Number :: "string \<Rightarrow> nat" where
  "Number ds = foldl (\<lambda>a c. 10 * a + digit_val c) 0 ds"

text \<open>The template literal \<^verbatim>\<open>${n}\<close> for a non-negative integer below \<open>10^21\<close>.\<close>

function show_nat :: "nat \<Rightarrow> string" where
  "show_nat n = (if n < 10 then [digit_char n] else show_nat (n div 10) @ [digit_char (n mod 10)])"
  by pat_completeness auto
termination
  by (relation "measure (\<lambda>n. n)") auto

declare show_nat.simps [simp del]

section \<open>The renderer's state\<close>

text \<open>
  The mutable fields of \<^verbatim>\<open>class ReactRenderer\<close>. An entry of \<^verbatim>\<open>elements\<close> is a React
  element (\<open>Some\<close>) or \<^verbatim>\<open>null\<close>, \<^verbatim>\<open>undefined\<close> or a hole of the array (\<open>None\<close>): the
  code only ever tests entries with \<^verbatim>\<open>!!el\<close>.
\<close>

record ReactRenderer =
  key :: nat
  elements :: "node option list"

text \<open>A JavaScript array has at most \<open>2^32 - 1\<close> elements; array indices are below that.\<close>

definition max_array_length :: nat where
  "max_array_length = 4294967295"

text \<open>\<^verbatim>\<open>this.elements[index]\<close>: \<^verbatim>\<open>undefined\<close> out of range.\<close>

definition array_get :: "node option list \<Rightarrow> nat \<Rightarrow> node option" where
  "array_get xs i = (if i < length xs then xs ! i else None)"

text \<open>
  \<^verbatim>\<open>this.elements[index] = null\<close>: in range it overwrites; past the end it extends the
  array with holes up to the index; an index that is no array index sets an ordinary
  property (whose value \<^verbatim>\<open>null\<close> reads like an absent one) and leaves the array alone.
\<close>

definition array_set_null :: "node option list \<Rightarrow> nat \<Rightarrow> node option list" where
  "array_set_null xs i =
     (if i < length xs then xs[i := None]
      else if i < max_array_length then xs @ replicate (i + 1 - length xs) None
      else xs)"

definition addElement :: "ReactRenderer \<Rightarrow> node \<Rightarrow> error + (string \<times> ReactRenderer)" where
  "addElement st element =
     (let elementId = length (elements st)
      in if elementId \<ge> max_array_length then Inl RangeError
         else Inr (''{{'' @ show_nat elementId @ ''}}'',
                   st\<lparr>elements := elements st @ [Some element]\<rparr>))"

section \<open>Decoding: getElements\<close>

text \<open>
  The regular expression \<^verbatim>\<open>/^{{\d+}}/g\<close>: two opening braces at the very start, the
  longest run of digits (at least one), two closing braces. The result is the digit run
  (what \<^verbatim>\<open>match.match(/\d+/)[0]\<close> extracts) and the text after the token. The anchor
  matches at offset 0 only, so \<^verbatim>\<open>replace\<close> removes at most one token per call.
\<close>

definition match_token :: "string \<Rightarrow> (string \<times> string) option" where
  "match_token text =
     (if take 2 text = ''{{'' then
        (let ds = takeWhile is_digit (drop 2 text);
             r = dropWhile is_digit (drop 2 text)
         in if ds \<noteq> [] \<and> take 2 r = ''}}'' then Some (ds, drop 2 r) else None)
      else None)"

text \<open>\<^verbatim>\<open>text.indexOf(pat)\<close>: the first offset at which \<open>pat\<close> occurs, or \<open>-1\<close>.\<close>

fun indexOf :: "string \<Rightarrow> string \<Rightarrow> int" where
  "indexOf [] pat = (if pat = [] then 0 else - 1)"
| "indexOf (c # cs) pat =
     (if take (length pat) (c # cs) = pat then 0
      else (let r = indexOf cs pat in if r < 0 then - 1 else r + 1))"

text \<open>The span synthesized for leaked text: \<^verbatim>\<open><span key={this.key++}>{subst}</span>\<close>.\<close>

definition leak_span :: "nat \<Rightarrow> string \<Rightarrow> node" where
  "leak_span k subst = Element ''span'' (Some k) [] [TextChild subst]"

text \<open>
  The inner loop \<^verbatim>\<open>while (next > 0)\<close>, on the renderer, the remaining text, \<^verbatim>\<open>next\<close> and
  the local array \<^verbatim>\<open>elements\<close> (here \<open>acc\<close>).
\<close>

function leak_loop ::
  "unescape \<Rightarrow> ReactRenderer \<Rightarrow> string \<Rightarrow> int \<Rightarrow> node option list
     \<Rightarrow> error + (ReactRenderer \<times> string \<times> node option list)" where
  "leak_loop u st text next acc =
     (if next > 0 then
        (case u (take (nat next) text) of
           Inl e \<Rightarrow> Inl e
         | Inr subst \<Rightarrow>
             leak_loop u (st\<lparr>key := key st + 1\<rparr>) (drop (nat next) text)
               (indexOf (drop (nat next) text) ''{{'')
               (acc @ [Some (leak_span (key st) subst)]))
      else Inr (st, text, acc))"
  by pat_completeness auto

lemma indexOf_le_length: "indexOf s pat \<le> int (length s)"
  by (induction s) (auto simp: Let_def)

lemma indexOf_pos_nonempty: "0 < indexOf s pat \<Longrightarrow> s \<noteq> []"
  by (cases s) (auto split: if_splits)

termination leak_loop
proof (relation "measure (\<lambda>(u, st, text, next, acc). if next > 0 then Suc (length text) else 0)")
  show "wf (measure (\<lambda>(u, st, text, next, acc). if next > 0 then Suc (length text) else 0))"
    by simp
next
  fix u :: unescape and st :: ReactRenderer and tx :: string and nxt :: int
    and acc :: "node option list" and subst :: string
  assume pos: "0 < nxt"
  show "((u, st\<lparr>key := key st + 1\<rparr>, drop (nat nxt) tx,
          indexOf (drop (nat nxt) tx) ''{{'', acc @ [Some (leak_span (key st) subst)]),
         (u, st, tx, nxt, acc))
        \<in> measure (\<lambda>(u, st, text, next, acc). if next > 0 then Suc (length text) else 0)"
  proof (cases "0 < indexOf (drop (nat nxt) tx) ''{{''")
    case True
    then have "drop (nat nxt) tx \<noteq> []"
      by (rule indexOf_pos_nonempty)
    then have "nat nxt < length tx"
      by simp
    with pos True show ?thesis
      by simp
  next
    case False
    with pos show ?thesis
      by simp
  qed
qed

declare leak_loop.simps [simp del]

text \<open>
  One pass through the body of \<^verbatim>\<open>while (true)\<close>: it either leaves the loop with the
  renderer and the local array (\<open>Break\<close>), or goes round again (\<open>Continue\<close>).
\<close>

datatype loop_state =
  Continue ReactRenderer string "node option list"
| Break ReactRenderer "node option list"

definition getElements_body ::
  "unescape \<Rightarrow> ReactRenderer \<Rightarrow> string \<Rightarrow> node option list \<Rightarrow> error + loop_state" where
  "getElements_body u st text acc =
     (let len = length text;
          (st1, text1, acc1) =
            (case match_token text of
               Some (ds, rest) \<Rightarrow>
                 (let index = Number ds
                  in (st\<lparr>elements := array_set_null (elements st) index\<rparr>, rest,
                      acc @ [array_get (elements st) index]))
             | None \<Rightarrow> (st, text, acc))
      in if length text1 = 0 then Inr (Break st1 acc1)
         else
           (case leak_loop u st1 text1 (indexOf text1 ''{{'') acc1 of
              Inl e \<Rightarrow> Inl e
            | Inr (st2, text2, acc2) \<Rightarrow>
                if len = length text2 then
                  (case u text2 of
                     Inl e \<Rightarrow> Inl e
                   | Inr t \<Rightarrow>
                       Inr (Break (st2\<lparr>key := key st2 + 1\<rparr>)
                              (acc2 @ [Some (leak_span (key st2) t)])))
                else Inr (Continue st2 text2 acc2)))"

function getElements_loop ::
  "unescape \<Rightarrow> ReactRenderer \<Rightarrow> string \<Rightarrow> node option list
     \<Rightarrow> error + (ReactRenderer \<times> node option list)" where
  "getElements_loop u st text acc =
     (case getElements_body u st text acc of
        Inl e \<Rightarrow> Inl e
      | Inr (Break st' acc') \<Rightarrow> Inr (st', acc')
      | Inr (Continue st' text' acc') \<Rightarrow> getElements_loop u st' text' acc')"
  by pat_completeness auto

lemma match_token_length:
  "match_token text = Some (ds, rest) \<Longrightarrow> length rest + length ds + 4 = length text"
proof -
  assume m: "match_token text = Some (ds, rest)"
  let ?t = "drop 2 text"
  let ?r = "dropWhile is_digit ?t"
  from m have a: "take 2 text = ''{{''" and b: "take 2 ?r = ''}}''"
    and c: "rest = drop 2 ?r" and d: "ds = takeWhile is_digit ?t"
    by (auto simp: match_token_def Let_def split: if_splits)
  from a have "length (take 2 text) = 2" by simp
  then have l1: "2 \<le> length text" by simp
  from b have "length (take 2 ?r) = 2" by simp
  then have l2: "2 \<le> length ?r" by simp
  have "length (takeWhile is_digit ?t) + length ?r = length ?t"
    by (metis length_append takeWhile_dropWhile_id)
  with l1 l2 c d show ?thesis
    by simp
qed

lemma leak_loop_length:
  "leak_loop u st tx nxt acc = Inr (st', text', acc') \<Longrightarrow> length text' \<le> length tx"
proof (induction u st tx nxt acc rule: leak_loop.induct)
  case (1 u st tx nxt acc)
  show ?case
  proof (cases "0 < nxt")
    case True
    with "1.prems" obtain subst where s: "u (take (nat nxt) tx) = Inr subst"
      and r: "leak_loop u (st\<lparr>key := key st + 1\<rparr>) (drop (nat nxt) tx)
               (indexOf (drop (nat nxt) tx) ''{{'')
               (acc @ [Some (leak_span (key st) subst)]) = Inr (st', text', acc')"
      by (auto simp: leak_loop.simps [of u st tx nxt acc] split: sum.splits)
    from "1.IH" [OF True s r] show ?thesis
      by simp
  next
    case False
    with "1.prems" show ?thesis
      by (simp add: leak_loop.simps [of u st tx nxt acc])
  qed
qed

lemma getElements_body_decreases:
  "getElements_body u st text acc = Inr (Continue st' text' acc') \<Longrightarrow> length text' < length text"
proof -
  assume b: "getElements_body u st text acc = Inr (Continue st' text' acc')"
  show ?thesis
  proof (cases "match_token text")
    case None
    with b obtain st2 where l: "leak_loop u st text (indexOf text ''{{'') acc = Inr (st2, text', acc')"
      and ne: "length text \<noteq> length text'"
      by (auto simp: getElements_body_def Let_def split: if_splits sum.splits prod.splits)
    from leak_loop_length [OF l] ne show ?thesis
      by simp
  next
    case (Some p)
    obtain ds rest where p: "p = (ds, rest)"
      by (cases p)
    from b Some p obtain st1 acc1 st2 where
      l: "leak_loop u st1 rest (indexOf rest ''{{'') acc1 = Inr (st2, text', acc')"
      by (auto simp: getElements_body_def Let_def split: if_splits sum.splits prod.splits)
    from match_token_length Some p have "length rest < length text"
      by fastforce
    with leak_loop_length [OF l] show ?thesis
      by simp
  qed
qed

termination getElements_loop
  by (relation "measure (\<lambda>(u, st, text, acc). length text)")
     (auto dest: getElements_body_decreases)

declare getElements_loop.simps [simp del]

text \<open>\<^verbatim>\<open>elements.filter(el => !!el)\<close> on the local array.\<close>

definition filter_truthy :: "node option list \<Rightarrow> node list" where
  "filter_truthy acc = List.map_filter (\<lambda>el. el) acc"

definition getElements :: "unescape \<Rightarrow> ReactRenderer \<Rightarrow> string \<Rightarrow> error + (node list \<times> ReactRenderer)" where
  "getElements u st text =
     (case getElements_loop u st text [] of
        Inl e \<Rightarrow> Inl e
      | Inr (st', acc) \<Rightarrow> Inr (filter_truthy acc, st'))"

section \<open>The renderer callbacks\<close>

text \<open>
  Every callback evaluates \<^verbatim>\<open>this.key++\<close> for its own element first (the props of a JSX
  element are evaluated before its children), then decodes or unescapes its content, then
  registers the element with \<^verbatim>\<open>addElement\<close>. The callbacks \<^verbatim>\<open>list\<close>, \<^verbatim>\<open>paragraph\<close>,
  \<^verbatim>\<open>image\<close> and \<^verbatim>\<open>text\<close> carry the suffix \<open>_cb\<close>, their names being taken in Isabelle.
\<close>

definition code :: "unescape \<Rightarrow> ReactRenderer \<Rightarrow> string \<Rightarrow> string \<Rightarrow> error + (string \<times> ReactRenderer)" where
  "code u st c language =
     (let k = key st
      in case u c of
           Inl e \<Rightarrow> Inl e
         | Inr t \<Rightarrow> addElement (st\<lparr>key := k + 1\<rparr>) (Element ''code'' (Some k) [] [TextChild t]))"

definition blockquote :: "unescape \<Rightarrow> ReactRenderer \<Rightarrow> string \<Rightarrow> error + (string \<times> ReactRenderer)" where
  "blockquote u st quote =
     (let k = key st
      in case getElements u (st\<lparr>key := k + 1\<rparr>) quote of
           Inl e \<Rightarrow> Inl e
         | Inr (els, st') \<Rightarrow> addElement st' (Element ''blockquote'' (Some k) [] [ArrayChild els]))"

definition html :: "ReactRenderer \<Rightarrow> string \<Rightarrow> error + (string \<times> ReactRenderer)" where
  "html st h =
     (let k = key st
      in addElement (st\<lparr>key := k + 1\<rparr>) (Element ''span'' (Some k) [] [TextChild h]))"

definition heading :: "unescape \<Rightarrow> ReactRenderer \<Rightarrow> string \<Rightarrow> nat \<Rightarrow> string \<Rightarrow> error + (string \<times> ReactRenderer)" where
  "heading u st content level raw =
     (let HeadingTag = ''h'' @ show_nat level;
          k = key st
      in case getElements u (st\<lparr>key := k + 1\<rparr>) content of
           Inl e \<Rightarrow> Inl e
         | Inr (els, st') \<Rightarrow> addElement st' (Element HeadingTag (Some k) [] [ArrayChild els]))"

definition hr :: "ReactRenderer \<Rightarrow> error + (string \<times> ReactRenderer)" where
  "hr st =
     (let k = key st
      in addElement (st\<lparr>key := k + 1\<rparr>) (Element ''hr'' (Some k) [] []))"

definition list_cb :: "unescape \<Rightarrow> ReactRenderer \<Rightarrow> string \<Rightarrow> bool \<Rightarrow> error + (string \<times> ReactRenderer)" where
  "list_cb u st body ordered =
     (let ListTag = (if ordered then ''ol'' else ''ul'');
          k = key st
      in case getElements u (st\<lparr>key := k + 1\<rparr>) body of
           Inl e \<Rightarrow> Inl e
         | Inr (els, st') \<Rightarrow> addElement st' (Element ListTag (Some k) [] [ArrayChild els]))"

definition listitem :: "unescape \<Rightarrow> ReactRenderer \<Rightarrow> string \<Rightarrow> error + (string \<times> ReactRenderer)" where
  "listitem u st content =
     (let k = key st
      in case getElements u (st\<lparr>key := k + 1\<rparr>) content of
           Inl e \<Rightarrow> Inl e
         | Inr (els, st') \<Rightarrow> addElement st' (Element ''li'' (Some k) [] [ArrayChild els]))"

definition paragraph_cb :: "unescape \<Rightarrow> ReactRenderer \<Rightarrow> string \<Rightarrow> error + (string \<times> ReactRenderer)" where
  "paragraph_cb u st content =
     (let k = key st
      in case getElements u (st\<lparr>key := k + 1\<rparr>) content of
           Inl e \<Rightarrow> Inl e
         | Inr (els, st') \<Rightarrow> addElement st' (Element ''p'' (Some k) [] [ArrayChild els]))"

definition table :: "unescape \<Rightarrow> ReactRenderer \<Rightarrow> string \<Rightarrow> string \<Rightarrow> error + (string \<times> ReactRenderer)" where
  "table u st header body =
     (let k = key st
      in case getElements u (st\<lparr>key := k + 1\<rparr>) header of
           Inl e \<Rightarrow> Inl e
         | Inr (hs, st') \<Rightarrow>
             (case getElements u st' body of
                Inl e \<Rightarrow> Inl e
              | Inr (bs, st'') \<Rightarrow>
                  addElement st''
                    (Element ''table'' (Some k) []
                       [NodeChild (Element ''thead'' None [] [ArrayChild hs]),
                        NodeChild (Element ''tbody'' None [] [ArrayChild bs])])))"

definition tablerow :: "unescape \<Rightarrow> ReactRenderer \<Rightarrow> string \<Rightarrow> error + (string \<times> ReactRenderer)" where
  "tablerow u st content =
     (let k = key st
      in case getElements u (st\<lparr>key := k + 1\<rparr>) content of
           Inl e \<Rightarrow> Inl e
         | Inr (els, st') \<Rightarrow> addElement st' (Element ''tr'' (Some k) [] [ArrayChild els]))"

text \<open>The \<^verbatim>\<open>flags\<close> of a table cell; \<^verbatim>\<open>align\<close> is \<^verbatim>\<open>null\<close> (\<open>None\<close>) or a string.\<close>

record cell_flags =
  header :: bool
  align :: "string option"

definition tablecell :: "unescape \<Rightarrow> ReactRenderer \<Rightarrow> string \<Rightarrow> cell_flags \<Rightarrow> error + (string \<times> ReactRenderer)" where
  "tablecell u st content flags =
     (let CellTag = (if header flags then ''th'' else ''td'');
          al = (case align flags of None \<Rightarrow> ''initial'' | Some a \<Rightarrow> if a = [] then ''initial'' else a);
          inlineStyle = [(''textAlign'', al)];
          k = key st
      in case getElements u (st\<lparr>key := k + 1\<rparr>) content of
           Inl e \<Rightarrow> Inl e
         | Inr (els, st') \<Rightarrow>
             addElement st' (Element CellTag (Some k) [(''style'', Style inlineStyle)] [ArrayChild els]))"

definition strong :: "unescape \<Rightarrow> ReactRenderer \<Rightarrow> string \<Rightarrow> error + (string \<times> ReactRenderer)" where
  "strong u st content =
     (let k = key st
      in case getElements u (st\<lparr>key := k + 1\<rparr>) content of
           Inl e \<Rightarrow> Inl e
         | Inr (els, st') \<Rightarrow> addElement st' (Element ''strong'' (Some k) [] [ArrayChild els]))"

definition em :: "unescape \<Rightarrow> ReactRenderer \<Rightarrow> string \<Rightarrow> error + (string \<times> ReactRenderer)" where
  "em u st content =
     (let k = key st
      in case getElements u (st\<lparr>key := k + 1\<rparr>) content of
           Inl e \<Rightarrow> Inl e
         | Inr (els, st') \<Rightarrow> addElement st' (Element ''em'' (Some k) [] [ArrayChild els]))"

definition codespan :: "unescape \<Rightarrow> ReactRenderer \<Rightarrow> string \<Rightarrow> error + (string \<times> ReactRenderer)" where
  "codespan u st c =
     (let k = key st
      in case u c of
           Inl e \<Rightarrow> Inl e
         | Inr t \<Rightarrow> addElement (st\<lparr>key := k + 1\<rparr>) (Element ''code'' (Some k) [] [TextChild t]))"

definition br :: "ReactRenderer \<Rightarrow> error + (string \<times> ReactRenderer)" where
  "br st =
     (let k = key st
      in addElement (st\<lparr>key := k + 1\<rparr>) (Element ''br'' (Some k) [] []))"

definition del :: "unescape \<Rightarrow> ReactRenderer \<Rightarrow> string \<Rightarrow> error + (string \<times> ReactRenderer)" where
  "del u st content =
     (let k = key st
      in case getElements u (st\<lparr>key := k + 1\<rparr>) content of
           Inl e \<Rightarrow> Inl e
         | Inr (els, st') \<Rightarrow> addElement st' (Element ''del'' (Some k) [] [ArrayChild els]))"

subsection \<open>Links and images\<close>

text \<open>
  The merged options object, restricted to its boolean keys; \<^verbatim>\<open>this.options.sanitize\<close> is
  truthy when the key is present and \<^verbatim>\<open>true\<close>.
\<close>

type_synonym MarkedOptions = "string \<rightharpoonup> bool"

definition sanitize :: "MarkedOptions \<Rightarrow> bool" where
  "sanitize options = (options ''sanitize'' = Some True)"

text \<open>
  \<^verbatim>\<open>toLowerCase\<close> on 8-bit code units: \<^verbatim>\<open>A-Z\<close> and the Latin-1 capitals move up by 32.
\<close>

definition lower_char :: "char \<Rightarrow> char" where
  "lower_char c =
     (let n = (of_char c :: nat)
      in if (65 \<le> n \<and> n \<le> 90) \<or> (192 \<le> n \<and> n \<le> 222 \<and> n \<noteq> 215) then char_of (n + 32) else c)"

definition toLowerCase :: "string \<Rightarrow> string" where
  "toLowerCase s = map lower_char s"

definition startsWith :: "string \<Rightarrow> string \<Rightarrow> bool" where
  "startsWith s p = (take (length p) s = p)"

text \<open>The result is \<^verbatim>\<open>null\<close> (\<open>None\<close>) or the unescaped destination.\<close>

definition unescapeAndSanitizeLink :: "unescape \<Rightarrow> MarkedOptions \<Rightarrow> string \<Rightarrow> string option" where
  "unescapeAndSanitizeLink u options href =
     (case u href of
        Inl e \<Rightarrow> None
      | Inr href' \<Rightarrow>
          if sanitize options then
            (let prot = toLowerCase href'
             in if \<not> (startsWith prot ''http:'' \<or> startsWith prot ''https:'') then None
                else Some href')
          else Some href')"

definition link ::
  "unescape \<Rightarrow> MarkedOptions \<Rightarrow> ReactRenderer \<Rightarrow> string \<Rightarrow> string \<Rightarrow> string
     \<Rightarrow> error + (string \<times> ReactRenderer)" where
  "link u options st href title content =
     (case unescapeAndSanitizeLink u options href of
        None \<Rightarrow> Inr ([], st)
      | Some href' \<Rightarrow>
          if href' = [] then Inr ([], st)
          else
            (let k = key st
             in case getElements u (st\<lparr>key := k + 1\<rparr>) content of
                  Inl e \<Rightarrow> Inl e
                | Inr (els, st') \<Rightarrow>
                    addElement st'
                      (Element ''a'' (Some k)
                         [(''href'', Str href'), (''title'', Str title), (''target'', Str ''_blank'')]
                         [ArrayChild els])))"

definition image_cb ::
  "unescape \<Rightarrow> MarkedOptions \<Rightarrow> ReactRenderer \<Rightarrow> string \<Rightarrow> string \<Rightarrow> string
     \<Rightarrow> error + (string \<times> ReactRenderer)" where
  "image_cb u options st href title content =
     (case unescapeAndSanitizeLink u options href of
        None \<Rightarrow> Inr ([], st)
      | Some href' \<Rightarrow>
          if href' = [] then Inr ([], st)
          else
            (let k = key st
             in addElement (st\<lparr>key := k + 1\<rparr>)
                  (Element ''img'' (Some k)
                     [(''onLoad'', Handler), (''src'', Str href'), (''title'', Str title),
                      (''alt'', Str content)]
                     [])))"

definition text_cb :: "unescape \<Rightarrow> ReactRenderer \<Rightarrow> string \<Rightarrow> error + (string \<times> ReactRenderer)" where
  "text_cb u st content =
     (let k = key st
      in case u content of
           Inl e \<Rightarrow> Inl e
         | Inr t \<Rightarrow> addElement (st\<lparr>key := k + 1\<rparr>) (Element ''span'' (Some k) [] [TextChild t]))"

section \<open>Plain text\<close>

definition CR :: char where
  "CR = CHR 0x0D"

definition LF :: char where
  "LF = CHR 0x0A"

text \<open>
  \<^verbatim>\<open>s.replace(pat, rep)\<close> with a string pattern replaces the first occurrence only
  (\<open>rep\<close> without \<^verbatim>\<open>$\<close> patterns).
\<close>

fun replace_first :: "string \<Rightarrow> string \<Rightarrow> string \<Rightarrow> string" where
  "replace_first [] pat rep = (if pat = [] then rep else [])"
| "replace_first (c # cs) pat rep =
     (if take (length pat) (c # cs) = pat then rep @ drop (length pat) (c # cs)
      else c # replace_first cs pat rep)"

text \<open>\<^verbatim>\<open>s.split(sep)\<close> for a one-character separator; the empty string gives one empty line.\<close>

function split_on :: "char \<Rightarrow> string \<Rightarrow> string list" where
  "split_on sep s =
     (case dropWhile (\<lambda>c. c \<noteq> sep) s of
        [] \<Rightarrow> [takeWhile (\<lambda>c. c \<noteq> sep) s]
      | _ # r \<Rightarrow> takeWhile (\<lambda>c. c \<noteq> sep) s # split_on sep r)"
  by pat_completeness auto
termination
proof (relation "measure (\<lambda>(sep, s). length s)")
  show "wf (measure (\<lambda>(sep, s). length s))"
    by simp
next
  fix sep :: char and s :: string and x :: char and r :: string
  assume d: "dropWhile (\<lambda>c. c \<noteq> sep) s = x # r"
  have "length (dropWhile (\<lambda>c. c \<noteq> sep) s) \<le> length s"
    by (rule length_dropWhile_le)
  with d show "((sep, r), (sep, s)) \<in> measure (\<lambda>(sep, s). length s)"
    by simp
qed

declare split_on.simps [simp del]

definition line_span :: "string \<times> nat \<Rightarrow> node" where
  "line_span = (\<lambda>(line, i). Element ''span'' (Some i) [] [TextChild line, NodeChild (Element ''br'' None [] [])])"

definition renderPlainText :: "string \<Rightarrow> node" where
  "renderPlainText s =
     (let lines = split_on LF (replace_first s [CR] []);
          els = map line_span (zip lines [0..<length lines])
      in Element ''span'' None [(''className'', Str ''format-plain'')] [ArrayChild els])"

section \<open>Markdown\<close>

text \<open>\<^verbatim>\<open>\s\<close> on 8-bit code units.\<close>

definition is_space :: "char \<Rightarrow> bool" where
  "is_space c = ((of_char c :: nat) \<in> {9, 10, 11, 12, 13, 32, 160})"

text \<open>
  \<^verbatim>\<open>/<br\s*\/?>/i\<close> matched at the start of the string: the text after the match.
\<close>

definition match_br :: "string \<Rightarrow> string option" where
  "match_br s =
     (case s of
        c1 # c2 # c3 # t \<Rightarrow>
          if c1 = CHR ''<'' \<and> c2 \<in> set ''bB'' \<and> c3 \<in> set ''rR'' then
            (let t1 = dropWhile is_space t;
                 t2 = (if take 1 t1 = ''/'' then drop 1 t1 else t1)
             in if take 1 t2 = ''>'' then Some (drop 1 t2) else None)
          else None
      | _ \<Rightarrow> None)"

lemma match_br_length: "match_br s = Some r \<Longrightarrow> length r < length s"
proof -
  assume m: "match_br s = Some r"
  then obtain c1 c2 c3 t where s: "s = c1 # c2 # c3 # t"
    by (auto simp: match_br_def split: list.splits)
  let ?t1 = "dropWhile is_space t"
  let ?t2 = "if take 1 ?t1 = ''/'' then drop 1 ?t1 else ?t1"
  from m s have r: "r = drop 1 ?t2"
    by (auto simp: match_br_def Let_def split: if_splits)
  have "length ?t1 \<le> length t"
    by (rule length_dropWhile_le)
  then have "length ?t2 \<le> length t"
    by (simp add: le_diff_conv trans_le_add1)
  with r s show ?thesis
    by simp
qed

text \<open>\<^verbatim>\<open>text.replace(/<br\s*\/?>/ig, '\r\n\r\n')\<close>: every match, left to right.\<close>

function replace_br :: "string \<Rightarrow> string" where
  "replace_br [] = []"
| "replace_br (c # cs) =
     (case match_br (c # cs) of
        Some rest \<Rightarrow> [CR, LF, CR, LF] @ replace_br rest
      | None \<Rightarrow> c # replace_br cs)"
  by pat_completeness auto
termination
  by (relation "measure length") (auto dest: match_br_length)

text \<open>The fixed defaults of \<^verbatim>\<open>renderMarkdown\<close>.\<close>

definition default_options :: MarkedOptions where
  "default_options =
     [''gfm'' \<mapsto> True, ''tables'' \<mapsto> True, ''breaks'' \<mapsto> False, ''pedantic'' \<mapsto> False,
      ''sanitize'' \<mapsto> False, ''smartLists'' \<mapsto> True, ''silent'' \<mapsto> False,
      ''smartypants'' \<mapsto> False]"

text \<open>
  \<^verbatim>\<open>Marked.parse(src, options)\<close> is external: a parameter that, given the merged options and
  the fresh renderer, returns the output string and the renderer as the callbacks left it,
  or throws.
\<close>

type_synonym marked_parse = "MarkedOptions \<Rightarrow> ReactRenderer \<Rightarrow> string \<Rightarrow> error + (string \<times> ReactRenderer)"

definition renderMarkdown ::
  "unescape \<Rightarrow> marked_parse \<Rightarrow> string \<Rightarrow> MarkedOptions option \<Rightarrow> error + node" where
  "renderMarkdown u parse s markdownOptions =
     (let src = replace_br s;
          options = default_options ++ (case markdownOptions of None \<Rightarrow> Map.empty | Some m \<Rightarrow> m);
          renderer = \<lparr>key = 0, elements = []\<rparr>
      in case parse options renderer src of
           Inl e \<Rightarrow> Inl e
         | Inr (out, renderer') \<Rightarrow>
             (case getElements u renderer' out of
                Inl e \<Rightarrow> Inl e
              | Inr (els, renderer'') \<Rightarrow>
                  Inr (Element ''span'' None [(''className'', Str ''format-markdown'')]
                         [ArrayChild els])))"

section \<open>The component\<close>

text \<open>
  The props; an absent (\<^verbatim>\<open>undefined\<close> or \<^verbatim>\<open>null\<close>) text is \<open>None\<close>. The result is
  \<^verbatim>\<open>null\<close> (\<open>None\<close>) or a node.
\<close>

record IFormattedTextProps =
  props_text :: "string option"
  props_format :: string
  props_markdownOptions :: "MarkedOptions option"

definition FormattedText ::
  "unescape \<Rightarrow> marked_parse \<Rightarrow> IFormattedTextProps \<Rightarrow> error + node option" where
  "FormattedText u parse props =
     (case props_text props of
        None \<Rightarrow> Inr None
      | Some s \<Rightarrow>
          if s = [] then Inr None
          else if props_format props = ''plain'' then Inr (Some (renderPlainText s))
          else
            (case renderMarkdown u parse s (props_markdownOptions props) of
               Inl e \<Rightarrow> Inl e
             | Inr n \<Rightarrow> Inr (Some n)))"

section \<open>Measuring the output\<close>

text \<open>The number of elements with a given tag in a tree.\<close>

fun count_tag :: "string \<Rightarrow> node \<Rightarrow> nat"
  and count_tag_child :: "string \<Rightarrow> child \<Rightarrow> nat" where
  "count_tag t (Element tag k attrs cs) =
     (if tag = t then 1 else 0) + sum_list (map (count_tag_child t) cs)"
| "count_tag_child t (TextChild s) = 0"
| "count_tag_child t (NodeChild n) = count_tag t n"
| "count_tag_child t (ArrayChild ns) = sum_list (map (count_tag t) ns)"

text \<open>
  The normalisation the specification describes for plain text: every carriage return
  followed by a newline becomes a newline.
\<close>

fun normalize_crlf_spec :: "string \<Rightarrow> string" where
  "normalize_crlf_spec (c1 # c2 # cs) =
     (if c1 = CR \<and> c2 = LF then LF # normalize_crlf_spec cs
      else c1 # normalize_crlf_spec (c2 # cs))"
| "normalize_crlf_spec cs = cs"

text \<open>
  The loop \<^verbatim>\<open>while (true)\<close> with a bound on the number of passes: \<open>None\<close> when the bound
  is used up before the loop is left.
\<close>

fun getElements_fuel ::
  "nat \<Rightarrow> unescape \<Rightarrow> ReactRenderer \<Rightarrow> string \<Rightarrow> node option list
     \<Rightarrow> (error + (ReactRenderer \<times> node option list)) option" where
  "getElements_fuel 0 u st s acc = None"
| "getElements_fuel (Suc fuel) u st s acc =
     (case getElements_body u st s acc of
        Inl e \<Rightarrow> Some (Inl e)
      | Inr (Break st' acc') \<Rightarrow> Some (Inr (st', acc'))
      | Inr (Continue st' s' acc') \<Rightarrow> getElements_fuel fuel u st' s' acc')"

section \<open>The decoder as the specification describes it\<close>








section \<open>Facts about numerals and tokens\<close>








lemma not_digit_brace: "\<not> is_digit CHR ''}''"
  by (simp add: is_digit_def)

lemma match_token_token:
  assumes "ds \<noteq> []" and "\<And>c. c \<in> set ds \<Longrightarrow> is_digit c"
  shows "match_token (''{{'' @ ds @ ''}}'' @ rest) = Some (ds, rest)"
proof -
  have t: "takeWhile is_digit (ds @ CHR ''}'' # CHR ''}'' # rest) = ds"
    using assms(2) by (simp add: not_digit_brace)
  have d: "dropWhile is_digit (ds @ CHR ''}'' # CHR ''}'' # rest) = CHR ''}'' # CHR ''}'' # rest"
    using assms(2) by (simp add: not_digit_brace)
  show ?thesis
    using assms(1) by (simp add: match_token_def Let_def t d)
qed

lemma leak_loop_stop: "\<not> 0 < n \<Longrightarrow> leak_loop u st t n acc = Inr (st, t, acc)"
  by (simp add: leak_loop.simps [of u st t n acc])

lemma indexOf_prefix: "take 2 s = ''{{'' \<Longrightarrow> indexOf s ''{{'' = 0"
  by (cases s) (auto simp: numeral_2_eq_2)

lemma leak_loop_consumes:
  assumes "0 < n" and "t \<noteq> []" and "leak_loop u st t n acc = Inr (st', t', acc')"
  shows "length t' < length t"
proof -
  from assms(1,3) obtain subst where
    r: "leak_loop u (st\<lparr>key := key st + 1\<rparr>) (drop (nat n) t)
          (indexOf (drop (nat n) t) ''{{'') (acc @ [Some (leak_span (key st) subst)]) = Inr (st', t', acc')"
    by (auto simp: leak_loop.simps [of u st t n acc] split: sum.splits)
  from leak_loop_length [OF r] have "length t' \<le> length (drop (nat n) t)" .
  moreover from assms(1,2) have "length (drop (nat n) t) < length t"
    by simp
  ultimately show ?thesis
    by simp
qed

lemma match_token_indexOf: "match_token t = Some p \<Longrightarrow> indexOf t ''{{'' = 0"
  by (rule indexOf_prefix) (auto simp: match_token_def split: if_splits)

lemma getElements_loop_Nil: "getElements_loop u st [] acc = Inr (st, acc)"
  by (simp add: getElements_loop.simps [of u st "[]" acc] getElements_body_def match_token_def)

lemma getElements_loop_token:
  assumes m: "match_token t = Some (ds, rest)"
  shows "getElements_loop u st t acc =
         getElements_loop u (st\<lparr>elements := array_set_null (elements st) (Number ds)\<rparr>) rest
           (acc @ [array_get (elements st) (Number ds)])"
    (is "_ = getElements_loop u ?st1 rest ?acc1")
proof (cases "rest = []")
  case True
  with m show ?thesis
    by (simp add: getElements_loop.simps [of u st t acc] getElements_body_def Let_def getElements_loop_Nil)
next
  case ne: False
  from match_token_length [OF m] have lt: "length rest < length t"
    by simp
  show ?thesis
  proof (cases "0 < indexOf rest ''{{''")
    case False
    then have "leak_loop u ?st1 rest (indexOf rest ''{{'') ?acc1 = Inr (?st1, rest, ?acc1)"
      by (rule leak_loop_stop)
    with m ne lt show ?thesis
      by (simp add: getElements_loop.simps [of u st t acc] getElements_body_def Let_def)
  next
    case True
    then have nm: "match_token rest = None"
      using match_token_indexOf [of rest] by (cases "match_token rest") auto
    show ?thesis
    proof (cases "leak_loop u ?st1 rest (indexOf rest ''{{'') ?acc1")
      case (Inl e)
      with m ne nm show ?thesis
        by (simp add: getElements_loop.simps [of u st t acc]
            getElements_loop.simps [of u ?st1 rest ?acc1] getElements_body_def Let_def)
    next
      case (Inr r)
      obtain st2 t2 acc2 where r: "r = (st2, t2, acc2)"
        by (cases r)
      from leak_loop_consumes [OF True ne Inr [unfolded r]] have "length t2 < length rest" .
      with m ne nm lt Inr r show ?thesis
        by (simp add: getElements_loop.simps [of u st t acc]
            getElements_loop.simps [of u ?st1 rest ?acc1] getElements_body_def Let_def)
    qed
  qed
qed

lemma getElements_token_only:
  assumes "ds \<noteq> []" and "\<And>c. c \<in> set ds \<Longrightarrow> is_digit c"
  shows "getElements u st (''{{'' @ ds @ ''}}'') =
         Inr (filter_truthy [array_get (elements st) (Number ds)],
              st\<lparr>elements := array_set_null (elements st) (Number ds)\<rparr>)"
proof -
  have "match_token (''{{'' @ ds @ ''}}'') = Some (ds, [])"
    using match_token_token [OF assms, of "[]"] by simp
  then show ?thesis
    by (simp add: getElements_def getElements_loop_token getElements_loop_Nil)
qed


lemma filter_truthy_simps:
  "filter_truthy [] = []"
  "filter_truthy (Some n # xs) = n # filter_truthy xs"
  "filter_truthy (None # xs) = filter_truthy xs"
  by (simp_all add: filter_truthy_def List.map_filter_simps)

lemma filter_truthy_append: "filter_truthy (xs @ ys) = filter_truthy xs @ filter_truthy ys"
  by (simp add: filter_truthy_def List.map_filter_def)

lemma leak_loop_acc:
  "leak_loop u st t n (pre @ acc) =
     (case leak_loop u st t n acc of
        Inl e \<Rightarrow> Inl e
      | Inr (s, t', a) \<Rightarrow> Inr (s, t', pre @ a))"
proof (induction u st t n acc rule: leak_loop.induct)
  case (1 u st t n acc)
  show ?case
  proof (cases "0 < n")
    case False
    then show ?thesis
      by (simp add: leak_loop_stop)
  next
    case True
    show ?thesis
    proof (cases "u (take (nat n) t)")
      case (Inl e)
      with True show ?thesis
        by (simp add: leak_loop.simps [of u st t n])
    next
      case (Inr subst)
      from "1.IH" [OF True Inr] True Inr show ?thesis
        by (simp add: leak_loop.simps [of u st t n])
    qed
  qed
qed

lemma getElements_body_acc:
  "getElements_body u st t (pre @ acc) =
     (case getElements_body u st t acc of
        Inl e \<Rightarrow> Inl e
      | Inr (Continue s t' a) \<Rightarrow> Inr (Continue s t' (pre @ a))
      | Inr (Break s a) \<Rightarrow> Inr (Break s (pre @ a)))"
  by (simp add: getElements_body_def Let_def leak_loop_acc [of u _ _ _ pre, simplified]
      split: option.splits sum.splits prod.splits)

lemma getElements_loop_acc:
  "getElements_loop u st t (pre @ acc) =
     (case getElements_loop u st t acc of
        Inl e \<Rightarrow> Inl e
      | Inr (s, a) \<Rightarrow> Inr (s, pre @ a))"
proof (induction u st t acc rule: getElements_loop.induct)
  case (1 u st t acc)
  show ?case
  proof (cases "getElements_body u st t acc")
    case (Inl e)
    then show ?thesis
      by (simp add: getElements_loop.simps [of u st t] getElements_body_acc)
  next
    case (Inr r)
    show ?thesis
    proof (cases r)
      case (Break s a)
      with Inr show ?thesis
        by (simp add: getElements_loop.simps [of u st t] getElements_body_acc)
    next
      case (Continue s t' a)
      from "1.IH" [OF Inr Continue] Inr Continue show ?thesis
        by (simp add: getElements_loop.simps [of u st t] getElements_body_acc)
    qed
  qed
qed

lemma getElements_head_token:
  assumes "ds \<noteq> []" and "\<And>c. c \<in> set ds \<Longrightarrow> is_digit c"
  shows "getElements u st (''{{'' @ ds @ ''}}'' @ rest) =
         (case getElements u (st\<lparr>elements := array_set_null (elements st) (Number ds)\<rparr>) rest of
            Inl e \<Rightarrow> Inl e
          | Inr (ns, s) \<Rightarrow> Inr (filter_truthy [array_get (elements st) (Number ds)] @ ns, s))"
proof -
  have m: "match_token (''{{'' @ ds @ ''}}'' @ rest) = Some (ds, rest)"
    by (rule match_token_token [OF assms])
  show ?thesis
    unfolding getElements_def getElements_loop_token [OF m]
    using getElements_loop_acc [of u _ rest "[array_get (elements st) (Number ds)]" "[]"]
    by (cases "array_get (elements st) (Number ds)")
       (simp_all add: filter_truthy_simps split: sum.splits)
qed

lemma indexOf_drop:
  "0 \<le> indexOf s pat \<Longrightarrow> indexOf (drop (nat (indexOf s pat)) s) pat = 0"
proof (induction s)
  case Nil
  then show ?case
    by (simp split: if_splits)
next
  case (Cons c cs)
  show ?case
  proof (cases "take (length pat) (c # cs) = pat")
    case True
    then show ?thesis
      by simp
  next
    case False
    with Cons.prems have r: "0 \<le> indexOf cs pat"
      by (simp add: Let_def split: if_splits)
    with False have "indexOf (c # cs) pat = indexOf cs pat + 1"
      by (simp add: Let_def)
    moreover from r have "nat (indexOf cs pat + 1) = Suc (nat (indexOf cs pat))"
      by simp
    ultimately show ?thesis
      using Cons.IH [OF r] by simp
  qed
qed

lemma leak_loop_once:
  assumes "0 < indexOf t ''{{''" and "u (take (nat (indexOf t ''{{'')) t) = Inr subst"
  shows "leak_loop u st t (indexOf t ''{{'') acc =
         Inr (st\<lparr>key := key st + 1\<rparr>, drop (nat (indexOf t ''{{'')) t,
              acc @ [Some (leak_span (key st) subst)])"
proof -
  from assms(1) have "indexOf (drop (nat (indexOf t ''{{'')) t) ''{{'' = 0"
    by (intro indexOf_drop) simp
  with assms show ?thesis
    by (simp add: leak_loop.simps [of u st t] leak_loop_stop)
qed

lemma getElements_head_leak:
  assumes p: "0 < indexOf t ''{{''" and s: "u (take (nat (indexOf t ''{{'')) t) = Inr subst"
  shows "getElements u st t =
         (case getElements u (st\<lparr>key := key st + 1\<rparr>) (drop (nat (indexOf t ''{{'')) t) of
            Inl e \<Rightarrow> Inl e
          | Inr (ns, s) \<Rightarrow> Inr (leak_span (key st) subst # ns, s))"
proof -
  from p have nm: "match_token t = None"
    using match_token_indexOf [of t] by (cases "match_token t") auto
  from p have ne: "t \<noteq> []"
    by (rule indexOf_pos_nonempty)
  have "length t - nat (indexOf t ''{{'') < length t"
    using p ne by (intro diff_less) simp_all
  then have lt: "length (drop (nat (indexOf t ''{{'')) t) \<noteq> length t"
    by simp
  have "getElements_loop u st t [] =
        getElements_loop u (st\<lparr>key := key st + 1\<rparr>) (drop (nat (indexOf t ''{{'')) t)
          [Some (leak_span (key st) subst)]"
    using nm ne lt
    by (simp add: getElements_loop.simps [of u st t] getElements_body_def
        leak_loop_once [of t u subst st "[]", OF p s])
  then show ?thesis
    unfolding getElements_def
    using getElements_loop_acc [of u _ _ "[Some (leak_span (key st) subst)]" "[]"]
    by (simp add: filter_truthy_simps filter_truthy_append split: sum.splits)
qed

lemma getElements_body_progress:
  assumes "getElements_body u st t acc = Inr (Continue st' t' acc')"
  shows "match_token t \<noteq> None \<or> 0 < indexOf t ''{{''"
proof (rule ccontr)
  assume "\<not> (match_token t \<noteq> None \<or> 0 < indexOf t ''{{'')"
  then have nm: "match_token t = None" and ni: "\<not> 0 < indexOf t ''{{''"
    by blast+
  from ni have "leak_loop u st t (indexOf t ''{{'') acc = Inr (st, t, acc)"
    by (rule leak_loop_stop)
  with nm assms show False
    by (simp add: getElements_body_def split: if_splits sum.splits)
qed

lemma getElements_fuel_enough:
  "length t < fuel \<Longrightarrow> getElements_fuel fuel u st t acc = Some (getElements_loop u st t acc)"
proof (induction fuel arbitrary: st t acc)
  case 0
  then show ?case
    by simp
next
  case (Suc fuel)
  show ?case
  proof (cases "getElements_body u st t acc")
    case (Inl e)
    then show ?thesis
      by (simp add: getElements_loop.simps [of u st t acc])
  next
    case (Inr r)
    show ?thesis
    proof (cases r)
      case (Break s a)
      with Inr show ?thesis
        by (simp add: getElements_loop.simps [of u st t acc])
    next
      case (Continue s t' a)
      with Inr have "length t' < length t"
        by (intro getElements_body_decreases [of u st t acc s t' a]) simp
      with Suc.prems have "length t' < fuel"
        by simp
      from Suc.IH [OF this] Inr Continue show ?thesis
        by (simp add: getElements_loop.simps [of u st t acc])
    qed
  qed
qed










section \<open>Facts about plain text\<close>

lemma CR_neq_LF: "CR \<noteq> LF"
  by (simp add: CR_def LF_def)

lemma length_split_on: "length (split_on c s) = Suc (length (filter (\<lambda>x. x = c) s))"
proof (induction c s rule: split_on.induct)
  case (1 sep s)
  have tw: "filter (\<lambda>x. x = sep) (takeWhile (\<lambda>c. c \<noteq> sep) s) = []"
    by (auto simp: filter_empty_conv dest: set_takeWhileD)
  have dec: "filter (\<lambda>x. x = sep) s =
             filter (\<lambda>x. x = sep) (takeWhile (\<lambda>c. c \<noteq> sep) s) @
             filter (\<lambda>x. x = sep) (dropWhile (\<lambda>c. c \<noteq> sep) s)"
    by (metis filter_append takeWhile_dropWhile_id)
  show ?case
  proof (cases "dropWhile (\<lambda>c. c \<noteq> sep) s")
    case Nil
    have sp: "split_on sep s = [takeWhile (\<lambda>c. c \<noteq> sep) s]"
      by (simp only: split_on.simps [of sep s] Nil list.case)
    have "filter (\<lambda>x. x = sep) s = []"
      using dec unfolding tw Nil by simp
    with sp show ?thesis
      by simp
  next
    case (Cons x r)
    then have "x = sep"
      using hd_dropWhile [of "\<lambda>c. c \<noteq> sep" s] by auto
    have sp: "split_on sep s = takeWhile (\<lambda>c. c \<noteq> sep) s # split_on sep r"
      by (simp only: split_on.simps [of sep s] Cons list.case)
    have "filter (\<lambda>x. x = sep) s = sep # filter (\<lambda>x. x = sep) r"
      using dec \<open>x = sep\<close> unfolding tw Cons by simp
    with "1.IH" [OF Cons] sp show ?thesis
      by simp
  qed
qed

lemma filter_LF_replace_first:
  "filter (\<lambda>x. x = LF) (replace_first s [CR] []) = filter (\<lambda>x. x = LF) s"
  by (induction s) (auto simp: CR_neq_LF)

lemma filter_LF_normalize:
  "filter (\<lambda>x. x = LF) (normalize_crlf_spec s) = filter (\<lambda>x. x = LF) s"
  by (induction s rule: normalize_crlf_spec.induct) (auto simp: CR_neq_LF)

lemma count_br_line_spans:
  "sum_list (map (count_tag ''br'' \<circ> line_span) ps) = length ps"
  by (induction ps) (auto simp: line_span_def)

lemma count_br_renderPlainText:
  "count_tag ''br'' (renderPlainText s) = length (split_on LF (replace_first s [CR] []))"
  by (simp add: renderPlainText_def Let_def count_br_line_spans)

section \<open>Claims about decoding\<close>





text \<open>
  C2. With nodes registered and unconsumed at indices 0 and 1, the stream
  \<^verbatim>\<open>{{0}}raw & text{{1}}\<close> decodes to exactly three nodes in order: node 0, a synthesized
  span whose only child is the unescaped fragment \<^verbatim>\<open>raw & text\<close>, and node 1.
\<close>

theorem leak_absorption:
  assumes "1 < length (elements st)" and "elements st ! 0 = Some n0" and "elements st ! 1 = Some n1"
    and "u ''raw & text'' = Inr t"
  shows "getElements u st ''{{0}}raw & text{{1}}'' =
         Inr ([n0, Element ''span'' (Some (key st)) [] [TextChild t], n1],
              st\<lparr>key := key st + 1, elements := (elements st)[0 := None, 1 := None]\<rparr>)"
proof -
  have d0: "''0'' \<noteq> [] \<and> (\<forall>c \<in> set ''0''. is_digit c) \<and> Number ''0'' = 0"
    by (simp add: is_digit_def Number_def digit_val_def)
  have d1: "''1'' \<noteq> [] \<and> (\<forall>c \<in> set ''1''. is_digit c) \<and> Number ''1'' = 1"
    by (simp add: is_digit_def Number_def digit_val_def)
  have i: "indexOf ''raw & text{{1}}'' ''{{'' = 10"
    by simp
  from assms(1) have l0: "elements st \<noteq> []"
    by auto
  have a: "getElements u st ''{{0}}raw & text{{1}}'' =
        (case getElements u (st\<lparr>elements := (elements st)[0 := None]\<rparr>) ''raw & text{{1}}'' of
            Inl e \<Rightarrow> Inl e
          | Inr (ns, s) \<Rightarrow> Inr (n0 # ns, s))"
    using getElements_head_token [of "''0''" u st "''raw & text{{1}}''"] d0 l0 assms(1,2)
    by (simp add: array_get_def array_set_null_def filter_truthy_simps cong: sum.case_cong)
  have b: "getElements u (st\<lparr>elements := (elements st)[0 := None]\<rparr>) ''raw & text{{1}}'' =
        (case getElements u (st\<lparr>elements := (elements st)[0 := None], key := key st + 1\<rparr>) ''{{1}}'' of
            Inl e \<Rightarrow> Inl e
          | Inr (ns, s) \<Rightarrow> Inr (leak_span (key st) t # ns, s))"
    using getElements_head_leak [of "''raw & text{{1}}''" u t "st\<lparr>elements := (elements st)[0 := None]\<rparr>"]
      assms(4)
    by (simp add: i cong: sum.case_cong)
  have c: "getElements u (st\<lparr>elements := (elements st)[0 := None], key := key st + 1\<rparr>) ''{{1}}'' =
        Inr ([n1], st\<lparr>elements := (elements st)[0 := None, 1 := None], key := key st + 1\<rparr>)"
    using getElements_token_only [of "''1''" u "st\<lparr>elements := (elements st)[0 := None], key := key st + 1\<rparr>"]
      d1 assms(1,3)
    by (simp add: array_get_def array_set_null_def filter_truthy_simps cong: sum.case_cong)
  show ?thesis
    unfolding a b c by (simp add: leak_span_def)
qed

theorem leak_absorption_witness:
  "getElements Inr \<lparr>key = 7, elements = [Some (Element ''hr'' (Some 0) [] []), Some (Element ''br'' (Some 1) [] [])]\<rparr>
     ''{{0}}raw & text{{1}}'' =
   Inr ([Element ''hr'' (Some 0) [] [], Element ''span'' (Some 7) [] [TextChild ''raw & text''],
         Element ''br'' (Some 1) [] []],
        \<lparr>key = 8, elements = [None, None]\<rparr>)"
  using leak_absorption [of "\<lparr>key = 7, elements = [Some (Element ''hr'' (Some 0) [] []), Some (Element ''br'' (Some 1) [] [])]\<rparr>"
      "Element ''hr'' (Some 0) [] []" "Element ''br'' (Some 1) [] []" Inr "''raw & text''"]
  by simp

text \<open>
  C3. The decode loop terminates on every input: a pass through the loop body that goes
  round again has removed a leading token or consumed at least one leaked character, so
  the remaining text is strictly shorter; every other pass leaves the loop. Hence
  \<open>length t + 1\<close> passes always suffice.
\<close>

theorem getElements_terminates:
  "(getElements_body u st t acc = Inr (Continue st' t' acc') \<longrightarrow>
      length t' < length t \<and> (match_token t \<noteq> None \<or> 0 < indexOf t ''{{'')) \<and>
   getElements_fuel (Suc (length t)) u st t acc = Some (getElements_loop u st t acc)"
  using getElements_body_decreases [of u st t acc st' t' acc']
    getElements_body_progress [of u st t acc st' t' acc']
    getElements_fuel_enough [of t "Suc (length t)" u st acc]
  by blast

theorem getElements_terminates_witness:
  "getElements_body Inr \<lparr>key = 0, elements = []\<rparr> ''a{{0}}'' [] =
     Inr (Continue \<lparr>key = 1, elements = []\<rparr> ''{{0}}'' [Some (Element ''span'' (Some 0) [] [TextChild ''a''])]) \<and>
   length ''{{0}}'' < length ''a{{0}}'' \<and> 0 < indexOf ''a{{0}}'' ''{{'' \<and>
   getElements_fuel (Suc (length ''a{{0}}'')) Inr \<lparr>key = 0, elements = []\<rparr> ''a{{0}}'' [] =
     Some (getElements_loop Inr \<lparr>key = 0, elements = []\<rparr> ''a{{0}}'' [])"
  using getElements_terminates [where u = Inr and st = "\<lparr>key = 0, elements = []\<rparr>" and t = "''a{{0}}''"
      and acc = "[]" and st' = "\<lparr>key = 1, elements = []\<rparr>" and t' = "''{{0}}''"
      and acc' = "[Some (Element ''span'' (Some 0) [] [TextChild ''a''])]"]
  by (simp add: getElements_body_def match_token_def leak_loop.simps leak_span_def)





section \<open>Claims about the component\<close>

text \<open>
  C5. The claim is that every carriage return and newline pair is normalised before the
  text is split. The code removes the first carriage return only: on two lines ending in
  CR LF the second line keeps its carriage return, where the normalisation of the
  specification gives the lines \<^verbatim>\<open>a\<close>, \<^verbatim>\<open>b\<close>, \<^verbatim>\<open>c\<close>. (The shape of the result, one
  span of text and line break per line inside one container, is as claimed.)
\<close>

theorem renderPlainText_keeps_second_CR:
  "renderPlainText [CHR ''a'', CR, LF, CHR ''b'', CR, LF, CHR ''c''] =
     Element ''span'' None [(''className'', Str ''format-plain'')]
       [ArrayChild
          [Element ''span'' (Some 0) [] [TextChild ''a'', NodeChild (Element ''br'' None [] [])],
           Element ''span'' (Some 1) [] [TextChild [CHR ''b'', CR], NodeChild (Element ''br'' None [] [])],
           Element ''span'' (Some 2) [] [TextChild ''c'', NodeChild (Element ''br'' None [] [])]]] \<and>
   split_on LF (normalize_crlf_spec [CHR ''a'', CR, LF, CHR ''b'', CR, LF, CHR ''c'']) = [''a'', ''b'', ''c'']"
  by (simp add: renderPlainText_def split_on.simps line_span_def CR_def LF_def)

text \<open>
  C6. For non-empty plain-format text the component returns the plain rendering, and the
  number of \<^verbatim>\<open>br\<close> elements in it is the number of newline-delimited lines of the input,
  normalised as the specification describes or not.
\<close>

theorem plain_line_break_count:
  "s \<noteq> [] \<Longrightarrow>
     FormattedText u parse \<lparr>props_text = Some s, props_format = ''plain'', props_markdownOptions = m\<rparr> =
       Inr (Some (renderPlainText s)) \<and>
     count_tag ''br'' (renderPlainText s) = length (split_on LF (normalize_crlf_spec s)) \<and>
     count_tag ''br'' (renderPlainText s) = length (split_on LF s)"
  by (simp add: FormattedText_def count_br_renderPlainText length_split_on
      filter_LF_replace_first filter_LF_normalize)

theorem plain_line_break_count_witness:
  "[CHR ''a'', CR, LF, CHR ''b''] \<noteq> [] \<and>
   FormattedText Inr (\<lambda>options r src. Inl MarkedError)
     \<lparr>props_text = Some [CHR ''a'', CR, LF, CHR ''b''], props_format = ''plain'', props_markdownOptions = None\<rparr> =
     Inr (Some (renderPlainText [CHR ''a'', CR, LF, CHR ''b''])) \<and>
   count_tag ''br'' (renderPlainText [CHR ''a'', CR, LF, CHR ''b'']) = 2"
  using plain_line_break_count [of "[CHR ''a'', CR, LF, CHR ''b'']" Inr "\<lambda>options r src. Inl MarkedError" None]
  by (simp add: split_on.simps CR_def LF_def)

text \<open>
  C7. For every format (and whatever the external decoder and compiler do), the component
  returns \<^verbatim>\<open>null\<close>, not a node and not an exception, exactly when the text is absent or
  empty.
\<close>

theorem FormattedText_empty_is_null:
  "FormattedText u parse props = Inr None \<longleftrightarrow> props_text props = None \<or> props_text props = Some []"
  by (auto simp: FormattedText_def split: option.splits sum.splits)

theorem FormattedText_empty_is_null_witness:
  "FormattedText Inr (\<lambda>options r src. Inl MarkedError)
     \<lparr>props_text = Some [], props_format = ''markdown'', props_markdownOptions = None\<rparr> = Inr None \<and>
   FormattedText Inr (\<lambda>options r src. Inl MarkedError)
     \<lparr>props_text = None, props_format = ''plain'', props_markdownOptions = None\<rparr> = Inr None"
  using FormattedText_empty_is_null [of Inr "\<lambda>options r src. Inl MarkedError"
      "\<lparr>props_text = Some [], props_format = ''markdown'', props_markdownOptions = None\<rparr>"]
    FormattedText_empty_is_null [of Inr "\<lambda>options r src. Inl MarkedError"
      "\<lparr>props_text = None, props_format = ''plain'', props_markdownOptions = None\<rparr>"]
  by simp


section \<open>Claims about the callbacks\<close>

text \<open>
  C4. With \<^verbatim>\<open>options.sanitize\<close> on, a destination whose unescaped, lower-cased form starts
  with neither \<^verbatim>\<open>http:\<close> nor \<^verbatim>\<open>https:\<close> makes \<^verbatim>\<open>link\<close> and \<^verbatim>\<open>image\<close> return the
  empty string and leave the renderer as it was, whatever the title and the content: no
  node is registered, so no image element carrying the load handler exists.
\<close>

theorem unsafe_scheme_rejected:
  "sanitize options \<Longrightarrow> u href = Inr h \<Longrightarrow>
   \<not> startsWith (toLowerCase h) ''http:'' \<Longrightarrow> \<not> startsWith (toLowerCase h) ''https:'' \<Longrightarrow>
     link u options st href title content = Inr ([], st) \<and>
     image_cb u options st href title content = Inr ([], st)"
  by (simp add: link_def image_cb_def unescapeAndSanitizeLink_def Let_def)

theorem unsafe_scheme_rejected_witness:
  "sanitize (default_options ++ [''sanitize'' \<mapsto> True]) \<and>
   \<not> startsWith (toLowerCase ''javascript:alert(1)'') ''http:'' \<and>
   \<not> startsWith (toLowerCase ''javascript:alert(1)'') ''https:'' \<and>
   link Inr (default_options ++ [''sanitize'' \<mapsto> True]) \<lparr>key = 3, elements = [None]\<rparr>
     ''javascript:alert(1)'' ''title'' ''{{0}}'' = Inr ([], \<lparr>key = 3, elements = [None]\<rparr>) \<and>
   image_cb Inr (default_options ++ [''sanitize'' \<mapsto> True]) \<lparr>key = 3, elements = [None]\<rparr>
     ''javascript:alert(1)'' ''title'' ''{{0}}'' = Inr ([], \<lparr>key = 3, elements = [None]\<rparr>)"
  using unsafe_scheme_rejected [of "default_options ++ [''sanitize'' \<mapsto> True]" Inr
      "''javascript:alert(1)''" "''javascript:alert(1)''" "\<lparr>key = 3, elements = [None]\<rparr>"
      "''title''" "''{{0}}''"]
  by (simp add: sanitize_def startsWith_def toLowerCase_def lower_char_def)

text \<open>
  C9. A destination that unescapes to the empty string (the empty destination among
  them, when the decoder maps it to itself) makes \<^verbatim>\<open>link\<close> and \<^verbatim>\<open>image\<close> return the
  empty string and leave the renderer as it was, for every options object, so also with
  \<^verbatim>\<open>sanitize\<close> off.
\<close>

theorem empty_destination_rejected:
  "u href = Inr [] \<Longrightarrow>
     link u options st href title content = Inr ([], st) \<and>
     image_cb u options st href title content = Inr ([], st)"
  by (simp add: link_def image_cb_def unescapeAndSanitizeLink_def Let_def startsWith_def toLowerCase_def)

theorem empty_destination_rejected_witness:
  "\<not> sanitize default_options \<and>
   link Inr default_options \<lparr>key = 3, elements = [None]\<rparr> [] ''title'' ''{{0}}'' =
     Inr ([], \<lparr>key = 3, elements = [None]\<rparr>) \<and>
   image_cb Inr default_options \<lparr>key = 3, elements = [None]\<rparr> [] ''title'' ''{{0}}'' =
     Inr ([], \<lparr>key = 3, elements = [None]\<rparr>)"
  using empty_destination_rejected [of Inr "[]" default_options "\<lparr>key = 3, elements = [None]\<rparr>"
      "''title''" "''{{0}}''"]
  by (simp add: sanitize_def default_options_def)


text \<open>
  C10. \<^verbatim>\<open>html\<close> registers a span whose only child is its argument as it stands: the
  registry entries that tokens inside the fragment refer to stay unconsumed, and the
  decoder of entities is not consulted. Every other container callback registers an
  element whose children are the nodes \<^verbatim>\<open>getElements\<close> decodes from the content (and
  continues from the renderer that decoding leaves), and every leaf-text callback
  registers the unescaped text.
\<close>

theorem html_wraps_raw_content:
  assumes "length (elements st) < max_array_length"
    and "getElements u (st\<lparr>key := key st + 1\<rparr>) c = Inr (els, st1)"
    and "length (elements st1) < max_array_length"
    and "getElements u st1 c2 = Inr (els2, st2)"
    and "length (elements st2) < max_array_length"
    and "u c = Inr t"
    and "unescapeAndSanitizeLink u options href = Some h" and "h \<noteq> []"
  shows
    "html st c =
       Inr (''{{'' @ show_nat (length (elements st)) @ ''}}'',
            st\<lparr>key := key st + 1,
               elements := elements st @ [Some (Element ''span'' (Some (key st)) [] [TextChild c])]\<rparr>) \<and>
     blockquote u st c =
       Inr (''{{'' @ show_nat (length (elements st1)) @ ''}}'',
            st1\<lparr>elements := elements st1 @ [Some (Element ''blockquote'' (Some (key st)) [] [ArrayChild els])]\<rparr>) \<and>
     heading u st c level raw =
       Inr (''{{'' @ show_nat (length (elements st1)) @ ''}}'',
            st1\<lparr>elements := elements st1 @ [Some (Element (''h'' @ show_nat level) (Some (key st)) [] [ArrayChild els])]\<rparr>) \<and>
     list_cb u st c ordered =
       Inr (''{{'' @ show_nat (length (elements st1)) @ ''}}'',
            st1\<lparr>elements := elements st1 @ [Some (Element (if ordered then ''ol'' else ''ul'') (Some (key st)) [] [ArrayChild els])]\<rparr>) \<and>
     listitem u st c =
       Inr (''{{'' @ show_nat (length (elements st1)) @ ''}}'',
            st1\<lparr>elements := elements st1 @ [Some (Element ''li'' (Some (key st)) [] [ArrayChild els])]\<rparr>) \<and>
     paragraph_cb u st c =
       Inr (''{{'' @ show_nat (length (elements st1)) @ ''}}'',
            st1\<lparr>elements := elements st1 @ [Some (Element ''p'' (Some (key st)) [] [ArrayChild els])]\<rparr>) \<and>
     table u st c c2 =
       Inr (''{{'' @ show_nat (length (elements st2)) @ ''}}'',
            st2\<lparr>elements := elements st2 @
               [Some (Element ''table'' (Some (key st)) []
                        [NodeChild (Element ''thead'' None [] [ArrayChild els]),
                         NodeChild (Element ''tbody'' None [] [ArrayChild els2])])]\<rparr>) \<and>
     tablerow u st c =
       Inr (''{{'' @ show_nat (length (elements st1)) @ ''}}'',
            st1\<lparr>elements := elements st1 @ [Some (Element ''tr'' (Some (key st)) [] [ArrayChild els])]\<rparr>) \<and>
     tablecell u st c \<lparr>header = hd_flag, align = al\<rparr> =
       Inr (''{{'' @ show_nat (length (elements st1)) @ ''}}'',
            st1\<lparr>elements := elements st1 @
               [Some (Element (if hd_flag then ''th'' else ''td'') (Some (key st))
                        [(''style'', Style [(''textAlign'',
                            (case al of None \<Rightarrow> ''initial'' | Some a \<Rightarrow> if a = [] then ''initial'' else a))])]
                        [ArrayChild els])]\<rparr>) \<and>
     strong u st c =
       Inr (''{{'' @ show_nat (length (elements st1)) @ ''}}'',
            st1\<lparr>elements := elements st1 @ [Some (Element ''strong'' (Some (key st)) [] [ArrayChild els])]\<rparr>) \<and>
     em u st c =
       Inr (''{{'' @ show_nat (length (elements st1)) @ ''}}'',
            st1\<lparr>elements := elements st1 @ [Some (Element ''em'' (Some (key st)) [] [ArrayChild els])]\<rparr>) \<and>
     del u st c =
       Inr (''{{'' @ show_nat (length (elements st1)) @ ''}}'',
            st1\<lparr>elements := elements st1 @ [Some (Element ''del'' (Some (key st)) [] [ArrayChild els])]\<rparr>) \<and>
     link u options st href title c =
       Inr (''{{'' @ show_nat (length (elements st1)) @ ''}}'',
            st1\<lparr>elements := elements st1 @
               [Some (Element ''a'' (Some (key st))
                        [(''href'', Str h), (''title'', Str title), (''target'', Str ''_blank'')]
                        [ArrayChild els])]\<rparr>) \<and>
     code u st c language =
       Inr (''{{'' @ show_nat (length (elements st)) @ ''}}'',
            st\<lparr>key := key st + 1,
               elements := elements st @ [Some (Element ''code'' (Some (key st)) [] [TextChild t])]\<rparr>) \<and>
     codespan u st c =
       Inr (''{{'' @ show_nat (length (elements st)) @ ''}}'',
            st\<lparr>key := key st + 1,
               elements := elements st @ [Some (Element ''code'' (Some (key st)) [] [TextChild t])]\<rparr>) \<and>
     text_cb u st c =
       Inr (''{{'' @ show_nat (length (elements st)) @ ''}}'',
            st\<lparr>key := key st + 1,
               elements := elements st @ [Some (Element ''span'' (Some (key st)) [] [TextChild t])]\<rparr>)"
  using assms
  by (simp add: html_def blockquote_def heading_def list_cb_def listitem_def paragraph_cb_def
      table_def tablerow_def tablecell_def strong_def em_def del_def link_def code_def
      codespan_def text_cb_def addElement_def Let_def)


theorem html_wraps_raw_content_witness:
  "getElements Inr \<lparr>key = 6, elements = [Some (Element ''hr'' (Some 0) [] [])]\<rparr> ''{{0}}'' =
     Inr ([Element ''hr'' (Some 0) [] []], \<lparr>key = 6, elements = [None]\<rparr>) \<and>
   getElements Inr \<lparr>key = 6, elements = [None]\<rparr> ''x'' =
     Inr ([Element ''span'' (Some 6) [] [TextChild ''x'']], \<lparr>key = 7, elements = [None]\<rparr>) \<and>
   unescapeAndSanitizeLink Inr default_options ''http://a'' = Some ''http://a'' \<and>
   html \<lparr>key = 5, elements = [Some (Element ''hr'' (Some 0) [] [])]\<rparr> ''{{0}}'' =
     Inr (''{{1}}'',
          \<lparr>key = 6, elements = [Some (Element ''hr'' (Some 0) [] []),
                                 Some (Element ''span'' (Some 5) [] [TextChild ''{{0}}''])]\<rparr>) \<and>
   paragraph_cb Inr \<lparr>key = 5, elements = [Some (Element ''hr'' (Some 0) [] [])]\<rparr> ''{{0}}'' =
     Inr (''{{1}}'',
          \<lparr>key = 6, elements = [None,
                                 Some (Element ''p'' (Some 5) [] [ArrayChild [Element ''hr'' (Some 0) [] []]])]\<rparr>) \<and>
   text_cb Inr \<lparr>key = 5, elements = [Some (Element ''hr'' (Some 0) [] [])]\<rparr> ''{{0}}'' =
     Inr (''{{1}}'',
          \<lparr>key = 6, elements = [Some (Element ''hr'' (Some 0) [] []),
                                 Some (Element ''span'' (Some 5) [] [TextChild ''{{0}}''])]\<rparr>)"
proof -
  have g1: "getElements Inr \<lparr>key = 6, elements = [Some (Element ''hr'' (Some 0) [] [])]\<rparr> ''{{0}}'' =
     Inr ([Element ''hr'' (Some 0) [] []], \<lparr>key = 6, elements = [None]\<rparr>)"
    by (simp add: getElements_def getElements_loop.simps getElements_body_def match_token_def
        is_digit_def Number_def digit_val_def array_get_def array_set_null_def filter_truthy_simps)
  have g2: "getElements Inr \<lparr>key = 6, elements = [None]\<rparr> ''x'' =
     Inr ([Element ''span'' (Some 6) [] [TextChild ''x'']], \<lparr>key = 7, elements = [None]\<rparr>)"
    by (simp add: getElements_def getElements_loop.simps getElements_body_def match_token_def
        leak_loop.simps leak_span_def filter_truthy_simps)
  have l: "unescapeAndSanitizeLink Inr default_options ''http://a'' = Some ''http://a''"
    by (simp add: unescapeAndSanitizeLink_def sanitize_def default_options_def)
  have s1: "show_nat (Suc 0) = ''1''"
    by (simp add: show_nat.simps [of "Suc 0"] digit_char_def)
  show ?thesis
    using html_wraps_raw_content [where st = "\<lparr>key = 5, elements = [Some (Element ''hr'' (Some 0) [] [])]\<rparr>"
        and u = Inr and c = "''{{0}}''" and els = "[Element ''hr'' (Some 0) [] []]"
        and ?st1.0 = "\<lparr>key = 6, elements = [None]\<rparr>" and ?c2.0 = "''x''"
        and ?els2.0 = "[Element ''span'' (Some 6) [] [TextChild ''x'']]"
        and ?st2.0 = "\<lparr>key = 7, elements = [None]\<rparr>" and t = "''{{0}}''"
        and options = default_options and href = "''http://a''" and h = "''http://a''"
        and level = 2 and raw = "''r''" and ordered = True and hd_flag = False and al = None
        and title = "''t''" and language = "''js''"]
      g1 g2 l
    by (simp add: max_array_length_def s1)
qed

end
